theory Spec2Isabelle
  imports Main
begin

section \<open>DiagnosticsManager (extensions/typescript/src/features/diagnostics.ts)\<close>

text \<open>
  The manager keeps two object maps from file paths to diagnostic lists and owns one
  diagnostic collection of the editor API. The type of a diagnostic (\<open>'d\<close>) and the
  type of a URI (\<open>'u\<close>) are left open; \<open>client.asUrl\<close> is a parameter of every
  operation that uses it.
\<close>

text \<open>
  Modelled from the spec: the diagnostic collection (the presentation sink) is not part
  of the sources; the spec gives it as \<open>set(uri, diagnostic[])\<close>, \<open>delete(uri)\<close>,
  \<open>clear()\<close>, keyed by URI. It is a map from URIs to lists: \<open>set\<close> replaces the
  entry of the URI, \<open>delete\<close> removes it, \<open>clear\<close> removes every entry.
\<close>

type_synonym ('u, 'd) collection = "'u \<rightharpoonup> 'd list"

definition collection_set :: "'u \<Rightarrow> 'd list \<Rightarrow> ('u, 'd) collection \<Rightarrow> ('u, 'd) collection" where
  "collection_set u ds c = c(u \<mapsto> ds)"

definition collection_delete :: "'u \<Rightarrow> ('u, 'd) collection \<Rightarrow> ('u, 'd) collection" where
  "collection_delete u c = c(u := None)"

definition collection_clear :: "('u, 'd) collection" where
  "collection_clear = Map.empty"

record ('u, 'd) diagnostics_manager =
  syntaxDiagnostics :: "string \<rightharpoonup> 'd list"
  semanticDiagnostics :: "string \<rightharpoonup> 'd list"
  currentDiagnostics :: "('u, 'd) collection"
  validate :: bool

text \<open>The constructor: two empty object maps, a fresh collection, \<open>_validate = true\<close>.\<close>

definition constructor :: "('u, 'd) diagnostics_manager" where
  "constructor =
     \<lparr>syntaxDiagnostics = Map.empty, semanticDiagnostics = Map.empty,
      currentDiagnostics = collection_clear, validate = True\<rparr>"

definition reInitialize :: "('u, 'd) diagnostics_manager \<Rightarrow> ('u, 'd) diagnostics_manager" where
  "reInitialize s =
     s\<lparr>currentDiagnostics := collection_clear,
       syntaxDiagnostics := Map.empty,
       semanticDiagnostics := Map.empty\<rparr>"

definition updateValidate :: "bool \<Rightarrow> ('u, 'd) diagnostics_manager \<Rightarrow> ('u, 'd) diagnostics_manager" where
  "updateValidate v s =
     (if validate s = v then s
      else if \<not> v then
        s\<lparr>validate := v,
          syntaxDiagnostics := Map.empty,
          semanticDiagnostics := Map.empty,
          currentDiagnostics := collection_clear\<rparr>
      else s\<lparr>validate := v\<rparr>)"

text \<open>\<open>m[file] || []\<close>: the stored list, or the empty list when the key is absent (a
  stored array is truthy even when it is empty).\<close>

definition or_empty :: "'d list option \<Rightarrow> 'd list" where
  "or_empty r = (case r of None \<Rightarrow> [] | Some ds \<Rightarrow> ds)"

definition syntaxDiagnosticsReceived ::
  "(string \<Rightarrow> 'u) \<Rightarrow> string \<Rightarrow> 'd list \<Rightarrow> ('u, 'd) diagnostics_manager \<Rightarrow> ('u, 'd) diagnostics_manager" where
  "syntaxDiagnosticsReceived asUrl file ds s =
     (if \<not> validate s then s
      else
        let s1 = s\<lparr>syntaxDiagnostics := (syntaxDiagnostics s)(file \<mapsto> ds)\<rparr>;
            semanticDianostics = or_empty (semanticDiagnostics s1 file)
        in s1\<lparr>currentDiagnostics :=
                collection_set (asUrl file) (semanticDianostics @ ds) (currentDiagnostics s1)\<rparr>)"

definition semanticDiagnosticsReceived ::
  "(string \<Rightarrow> 'u) \<Rightarrow> string \<Rightarrow> 'd list \<Rightarrow> ('u, 'd) diagnostics_manager \<Rightarrow> ('u, 'd) diagnostics_manager" where
  "semanticDiagnosticsReceived asUrl file ds s =
     (if \<not> validate s then s
      else
        let s1 = s\<lparr>semanticDiagnostics := (semanticDiagnostics s)(file \<mapsto> ds)\<rparr>;
            syntaxDiags = or_empty (syntaxDiagnostics s1 file)
        in s1\<lparr>currentDiagnostics :=
                collection_set (asUrl file) (ds @ syntaxDiags) (currentDiagnostics s1)\<rparr>)"

definition configFileDiagnosticsReceived ::
  "(string \<Rightarrow> 'u) \<Rightarrow> string \<Rightarrow> 'd list \<Rightarrow> ('u, 'd) diagnostics_manager \<Rightarrow> ('u, 'd) diagnostics_manager" where
  "configFileDiagnosticsReceived asUrl file ds s =
     s\<lparr>currentDiagnostics := collection_set (asUrl file) ds (currentDiagnostics s)\<rparr>"

text \<open>The method \<open>delete(file)\<close> of the manager.\<close>

definition delete_file ::
  "(string \<Rightarrow> 'u) \<Rightarrow> string \<Rightarrow> ('u, 'd) diagnostics_manager \<Rightarrow> ('u, 'd) diagnostics_manager" where
  "delete_file asUrl file s =
     s\<lparr>currentDiagnostics := collection_delete (asUrl file) (currentDiagnostics s)\<rparr>"

subsection \<open>Runs of receive calls\<close>

text \<open>A call of one of the two receive methods, and a run of such calls in the order
  they are made.\<close>

datatype 'd received =
    Syntax string "'d list"
  | Semantic string "'d list"

fun receive :: "(string \<Rightarrow> 'u) \<Rightarrow> ('u, 'd) diagnostics_manager \<Rightarrow> 'd received \<Rightarrow> ('u, 'd) diagnostics_manager" where
  "receive asUrl s (Syntax file ds) = syntaxDiagnosticsReceived asUrl file ds s"
| "receive asUrl s (Semantic file ds) = semanticDiagnosticsReceived asUrl file ds s"

definition receive_all ::
  "(string \<Rightarrow> 'u) \<Rightarrow> ('u, 'd) diagnostics_manager \<Rightarrow> 'd received list \<Rightarrow> ('u, 'd) diagnostics_manager" where
  "receive_all asUrl s calls = foldl (receive asUrl) s calls"

fun received_file :: "'d received \<Rightarrow> string" where
  "received_file (Syntax file ds) = file"
| "received_file (Semantic file ds) = file"

text \<open>
  The spec's side of the first claim, read off the calls alone: the list most recently
  stored for a file by a syntax call (by a semantic call) of a run. The argument
  \<open>before\<close> is what counts when the run has no such call for the file: the list stored
  for the file before the run, the empty list when none was. \<open>newest_syntax\<close> and
  \<open>newest_semantic\<close> read a run from its latest call backwards.
\<close>

fun newest_syntax :: "'d list \<Rightarrow> string \<Rightarrow> 'd received list \<Rightarrow> 'd list" where
  "newest_syntax before f [] = before"
| "newest_syntax before f (Syntax g ds # cs) = (if g = f then ds else newest_syntax before f cs)"
| "newest_syntax before f (Semantic g ds # cs) = newest_syntax before f cs"

fun newest_semantic :: "'d list \<Rightarrow> string \<Rightarrow> 'd received list \<Rightarrow> 'd list" where
  "newest_semantic before f [] = before"
| "newest_semantic before f (Semantic g ds # cs) = (if g = f then ds else newest_semantic before f cs)"
| "newest_semantic before f (Syntax g ds # cs) = newest_semantic before f cs"

definition latest_syntax :: "'d list \<Rightarrow> string \<Rightarrow> 'd received list \<Rightarrow> 'd list" where
  "latest_syntax before f calls = newest_syntax before f (rev calls)"

definition latest_semantic :: "'d list \<Rightarrow> string \<Rightarrow> 'd received list \<Rightarrow> 'd list" where
  "latest_semantic before f calls = newest_semantic before f (rev calls)"

section \<open>TagClosing (the tag-closing feature of the TypeScript extension)\<close>

subsection \<open>Editor data\<close>

text \<open>\<open>vscode.Position\<close>, with \<open>isEqual\<close>.\<close>

record position =
  line :: nat
  character :: nat

definition isEqual :: "position \<Rightarrow> position \<Rightarrow> bool" where
  "isEqual p q = (line p = line q \<and> character p = character q)"

text \<open>\<open>vscode.TextDocumentContentChangeEvent\<close>: \<open>range.start\<close>, \<open>rangeLength\<close> and
  \<open>text\<close> (the field \<open>change_text\<close>, the list of its code units).\<close>

record change =
  range_start :: position
  rangeLength :: nat
  change_text :: string

record selection =
  anchor :: position
  active :: position

text \<open>A text document is an object of the editor: it is known by its identity (a
  number here), and its \<open>version\<close> and \<open>uri\<close> are read from the state at the moment
  the code reads them. A text editor shows one document and has a list of selections.\<close>

record editor =
  document :: nat
  selections :: "selection list"

text \<open>The snippet built by \<open>getTagSnippet\<close>: the calls \<open>appendPlaceholder\<close> and
  \<open>appendText\<close> in order.\<close>

datatype snippet_part = Placeholder string nat | Text string

text \<open>The second argument of \<open>insertSnippet\<close>: one position, or an array of positions.\<close>

datatype location = Position position | Positions "position list"

text \<open>Modelled from the spec: \<open>insertSnippet\<close> is the editor's; it inserts the snippet
  at the position it is given, or at every position of the array it is given.\<close>

fun insertion_positions :: "location \<Rightarrow> position list" where
  "insertion_positions (Position p) = [p]"
| "insertion_positions (Positions ps) = ps"

record insertion =
  into_document :: nat
  snippet :: "snippet_part list"
  at :: location

subsection \<open>Timers, cancellation tokens, requests\<close>

text \<open>What the callback given to \<open>setTimeout\<close> captures: \<open>document\<close>, \<open>version\<close>,
  \<open>rangeStart\<close>, \<open>lastChange\<close> (its text) and \<open>filepath\<close>; with the handle of the timer
  and its delay in milliseconds.\<close>

record timer =
  timer_id :: nat
  delay :: nat
  timer_document :: nat
  timer_version :: nat
  timer_rangeStart :: position
  timer_text :: string
  timer_filepath :: string

text \<open>A call of \<open>client.execute\<close> whose promise has not settled: the command, its
  arguments (file and position), the cancellation token it was given, and what the code
  after \<open>await\<close> captures (\<open>document\<close>, \<open>version\<close>, \<open>position\<close>).\<close>

record request =
  request_id :: nat
  command :: string
  request_file :: string
  request_position :: position
  request_token :: nat
  request_document :: nat
  request_version :: nat

text \<open>How the promise settles: rejected, resolved without a body
  (\<open>response && response.body\<close> is falsy), or resolved with a body \<open>{ newText }\<close>.\<close>

datatype reply = Rejected | NoBody | Body string

text \<open>
  The state: the fields of the class (\<open>_disposed\<close>, \<open>_timeout\<close>, \<open>_cancel\<close>, and whether
  the listener held in \<open>_disposables\<close> is registered), the part of the host the class acts
  on (the armed timers, the token sources that are neither cancelled nor disposed, the
  requests in flight, a counter for fresh handles), and the part of the editor it reads
  and writes (the active editor, the documents' versions and URIs, the snippets
  inserted).
\<close>

record tag_closing =
  disposed :: bool
  timeout :: "nat option"
  cancel :: "nat option"
  listening :: bool
  timers :: "timer list"
  tokens :: "nat list"
  requests :: "request list"
  next_handle :: nat
  activeTextEditor :: "editor option"
  version :: "nat \<Rightarrow> nat"
  uri :: "nat \<Rightarrow> string"
  inserted :: "insertion list"

text \<open>The constructor registers the listener; nothing is armed or in flight.\<close>

definition new_TagClosing :: "editor option \<Rightarrow> (nat \<Rightarrow> nat) \<Rightarrow> (nat \<Rightarrow> string) \<Rightarrow> tag_closing" where
  "new_TagClosing ed vs us =
     \<lparr>disposed = False, timeout = None, cancel = None, listening = True,
      timers = [], tokens = [], requests = [], next_handle = 0,
      activeTextEditor = ed, version = vs, uri = us, inserted = []\<rparr>"

text \<open>
  Modelled from the spec: the timers and the cancellation token sources are the host's,
  not part of the sources. A timer armed by \<open>setTimeout\<close> stays armed until it elapses
  (once) or is cleared by \<open>clearTimeout\<close>; clearing a handle that is not armed does
  nothing. A token source is live from its creation until it is cancelled or disposed.
\<close>

definition clearTimeout :: "nat \<Rightarrow> tag_closing \<Rightarrow> tag_closing" where
  "clearTimeout h s = s\<lparr>timers := filter (\<lambda>t. timer_id t \<noteq> h) (timers s)\<rparr>"

text \<open>\<open>this._cancel.cancel(); this._cancel.dispose(); this._cancel = undefined\<close>.\<close>

definition cancel_and_dispose :: "nat \<Rightarrow> tag_closing \<Rightarrow> tag_closing" where
  "cancel_and_dispose c s = s\<lparr>tokens := filter (\<lambda>k. k \<noteq> c) (tokens s), cancel := None\<rparr>"

definition dispose :: "tag_closing \<Rightarrow> tag_closing" where
  "dispose s =
     (let s1 = s\<lparr>disposed := True\<rparr>;
          s2 = s1\<lparr>listening := False\<rparr>;
          s3 = (case timeout s2 of
                  Some h \<Rightarrow> (clearTimeout h s2)\<lparr>timeout := None\<rparr>
                | None \<Rightarrow> s2)
      in case cancel s3 of
           Some c \<Rightarrow> cancel_and_dispose c s3
         | None \<Rightarrow> s3)"

text \<open>\<open>text[i]\<close> on a string: \<open>undefined\<close> outside the string.\<close>

definition char_at :: "string \<Rightarrow> int \<Rightarrow> char option" where
  "char_at t i = (if 0 \<le> i \<and> i < int (length t) then Some (t ! nat i) else None)"

text \<open>Lines 61 to 69: clear the timer whose handle is in \<open>_timeout\<close> (the field keeps
  the handle), cancel and drop the token source in \<open>_cancel\<close>.\<close>

definition cancel_pending :: "tag_closing \<Rightarrow> tag_closing" where
  "cancel_pending s =
     (let s1 = (case timeout s of Some h \<Rightarrow> clearTimeout h s | None \<Rightarrow> s)
      in case cancel s1 of
           Some c \<Rightarrow> cancel_and_dispose c s1
         | None \<Rightarrow> s1)"

definition onDidChangeTextDocument ::
  "(string \<Rightarrow> string option) \<Rightarrow> nat \<Rightarrow> change list \<Rightarrow> tag_closing \<Rightarrow> tag_closing" where
  "onDidChangeTextDocument toPath doc changes s =
     (let activeDocument = map_option document (activeTextEditor s) in
      if Some doc \<noteq> activeDocument \<or> length changes = 0 then s
      else
        case toPath (uri s doc) of
          None \<Rightarrow> s
        | Some filepath \<Rightarrow>
        if filepath = [] then s
        else
          let s1 = cancel_pending s;
              lastChange = changes ! (length changes - 1);
              lastCharacter = char_at (change_text lastChange) (int (length (change_text lastChange)) - 1)
          in
          if rangeLength lastChange > 0 \<or>
             (lastCharacter \<noteq> Some CHR ''>'' \<and> lastCharacter \<noteq> Some CHR ''/'') then s1
          else
            let secondToLastCharacter =
                  char_at (change_text lastChange) (int (length (change_text lastChange)) - 2)
            in
            if secondToLastCharacter = Some CHR ''>'' then s1
            else
              s1\<lparr>timeout := Some (next_handle s1),
                 timers := timers s1 @
                   [\<lparr>timer_id = next_handle s1, delay = 100,
                     timer_document = doc, timer_version = version s1 doc,
                     timer_rangeStart = range_start lastChange,
                     timer_text = change_text lastChange,
                     timer_filepath = filepath\<rparr>],
                 next_handle := Suc (next_handle s1)\<rparr>)"

definition getTagSnippet :: "string \<Rightarrow> snippet_part list" where
  "getTagSnippet newText = [Placeholder [] 0, Text newText]"

definition getInsertionPositions :: "editor \<Rightarrow> position \<Rightarrow> location" where
  "getInsertionPositions ed pos =
     (let activeSelectionPositions = map active (selections ed) in
      if list_ex (\<lambda>p. isEqual p pos) activeSelectionPositions
      then Positions activeSelectionPositions
      else Position pos)"

text \<open>The callback of the timer, up to \<open>await\<close>: the request is issued with a fresh
  token source, stored in \<open>_cancel\<close>.\<close>

definition timer_callback :: "timer \<Rightarrow> tag_closing \<Rightarrow> tag_closing" where
  "timer_callback t s =
     (let s1 = s\<lparr>timeout := None\<rparr> in
      if disposed s1 then s1
      else
        let pos = \<lparr>line = line (timer_rangeStart t),
                   character = character (timer_rangeStart t) + length (timer_text t)\<rparr>;
            c = next_handle s1;
            s2 = s1\<lparr>cancel := Some c, tokens := tokens s1 @ [c], next_handle := Suc c\<rparr>
        in s2\<lparr>requests := requests s2 @
                 [\<lparr>request_id = next_handle s2, command = ''jsxClosingTag'',
                   request_file = timer_filepath t, request_position = pos,
                   request_token = c,
                   request_document = timer_document t,
                   request_version = timer_version t\<rparr>],
               next_handle := Suc (next_handle s2)\<rparr>)"

text \<open>The callback after \<open>await\<close>, when the promise of the request has settled.\<close>

definition response_received :: "request \<Rightarrow> reply \<Rightarrow> tag_closing \<Rightarrow> tag_closing" where
  "response_received r rep s =
     (case rep of
        Rejected \<Rightarrow> s
      | NoBody \<Rightarrow> s
      | Body newText \<Rightarrow>
          if disposed s then s
          else
            (case activeTextEditor s of
               None \<Rightarrow> s
             | Some activeEditor \<Rightarrow>
                 let activeDocument = document activeEditor in
                 if request_document r = activeDocument \<and>
                    version s activeDocument = request_version r
                 then s\<lparr>inserted := inserted s @
                          [\<lparr>into_document = activeDocument,
                            snippet = getTagSnippet newText,
                            at = getInsertionPositions activeEditor (request_position r)\<rparr>]\<rparr>
                 else s))"

subsection \<open>The events of the host\<close>

text \<open>
  The host is single-threaded: it delivers one event at a time. A document change goes
  to the listener while it is registered; an armed timer elapses and its callback runs;
  the promise of a request in flight settles and the code after \<open>await\<close> runs; the
  component is disposed; the user activates another editor (or none); a document's
  version changes.
\<close>

datatype event =
    DocumentChanged nat "change list"
  | TimerElapsed nat
  | Settled nat reply
  | Disposed
  | ActiveEditorChanged "editor option"
  | VersionChanged nat nat

fun step :: "(string \<Rightarrow> string option) \<Rightarrow> tag_closing \<Rightarrow> event \<Rightarrow> tag_closing" where
  "step toPath s (DocumentChanged doc changes) =
     (if listening s then onDidChangeTextDocument toPath doc changes s else s)"
| "step toPath s (TimerElapsed h) =
     (case find (\<lambda>t. timer_id t = h) (timers s) of
        None \<Rightarrow> s
      | Some t \<Rightarrow> timer_callback t (s\<lparr>timers := filter (\<lambda>t. timer_id t \<noteq> h) (timers s)\<rparr>))"
| "step toPath s (Settled i rep) =
     (case find (\<lambda>r. request_id r = i) (requests s) of
        None \<Rightarrow> s
      | Some r \<Rightarrow>
          response_received r rep (s\<lparr>requests := filter (\<lambda>r. request_id r \<noteq> i) (requests s)\<rparr>))"
| "step toPath s Disposed = dispose s"
| "step toPath s (ActiveEditorChanged ed) = s\<lparr>activeTextEditor := ed\<rparr>"
| "step toPath s (VersionChanged doc v) = s\<lparr>version := (version s)(doc := v)\<rparr>"

definition run :: "(string \<Rightarrow> string option) \<Rightarrow> tag_closing \<Rightarrow> event list \<Rightarrow> tag_closing" where
  "run toPath s evs = foldl (step toPath) s evs"

text \<open>The requests in flight whose token has not been cancelled.\<close>

definition live_requests :: "tag_closing \<Rightarrow> request list" where
  "live_requests s = filter (\<lambda>r. request_token r \<in> set (tokens s)) (requests s)"

text \<open>The trigger check of lines 71 to 80 on the last change of a batch, as the spec
  words it: a pure insertion (no replaced range) whose text ends in \<open>>\<close> or \<open>/\<close> and
  whose character before the last is not \<open>>\<close>.\<close>

definition triggers :: "change \<Rightarrow> bool" where
  "triggers c =
     (rangeLength c = 0 \<and> change_text c \<noteq> [] \<and>
      (last (change_text c) = CHR ''>'' \<or> last (change_text c) = CHR ''/'') \<and>
      (length (change_text c) < 2 \<or> change_text c ! (length (change_text c) - 2) \<noteq> CHR ''>''))"

text \<open>The batch is one the handler looks at: it is for the active document, it has a
  change, and the client has a path for the document (\<open>toPath\<close> gave neither
  \<open>undefined\<close> nor the empty string).\<close>

definition falsy :: "string option \<Rightarrow> bool" where
  "falsy r = (case r of None \<Rightarrow> True | Some p \<Rightarrow> p = [])"

definition handled :: "(string \<Rightarrow> string option) \<Rightarrow> nat \<Rightarrow> change list \<Rightarrow> tag_closing \<Rightarrow> bool" where
  "handled toPath doc changes s =
     (map_option document (activeTextEditor s) = Some doc \<and> changes \<noteq> [] \<and>
      \<not> falsy (toPath (uri s doc)))"

text \<open>A timer is armed in going from \<open>s\<close> to \<open>s'\<close>: a timer is pending afterwards that
  was not pending before.\<close>

definition arms_timer :: "tag_closing \<Rightarrow> tag_closing \<Rightarrow> bool" where
  "arms_timer s s' = (\<not> set (timers s') \<subseteq> set (timers s))"

text \<open>
  What holds of the timers and tokens in every state the component reaches: every armed
  timer is the one whose handle is in \<open>_timeout\<close>, every token source that is neither
  cancelled nor disposed is the one in \<open>_cancel\<close>, there is at most one of each, no
  token is live while a timer is armed, and the handles in use are below the counter.
\<close>

definition tag_closing_inv :: "tag_closing \<Rightarrow> bool" where
  "tag_closing_inv s \<longleftrightarrow>
     (\<forall>t\<in>set (timers s). timeout s = Some (timer_id t)) \<and>
     length (timers s) \<le> 1 \<and>
     (\<forall>c\<in>set (tokens s). cancel s = Some c) \<and>
     length (tokens s) \<le> 1 \<and>
     (timers s \<noteq> [] \<longrightarrow> tokens s = []) \<and>
     (\<forall>t\<in>set (timers s). timer_id t < next_handle s) \<and>
     (\<forall>r\<in>set (requests s). request_token r < next_handle s) \<and>
     distinct (map request_token (requests s))"

section \<open>The breadcrumbs file picker (breadcrumbsPicker.ts)\<close>

text \<open>\<open>IFileStat\<close>, with the three fields the picker reads.\<close>

record 'u file_stat =
  name :: string
  resource :: 'u
  isDirectory :: bool

text \<open>\<open>FileSorter.compare\<close>. \<open>compareFileNames\<close> is imported from
  \<open>vs/base/common/comparers\<close>, and is a parameter here.\<close>

definition compare :: "(string \<Rightarrow> string \<Rightarrow> int) \<Rightarrow> 'u file_stat \<Rightarrow> 'u file_stat \<Rightarrow> int" where
  "compare compareFileNames a b =
     (if isDirectory a = isDirectory b then compareFileNames (name a) (name b)
      else if isDirectory a then - 1
      else 1)"

text \<open>\<open>BreadcrumbsFilePicker._onDidChangeSelection\<close>: the argument is the \<open>selection\<close>
  array of the event, the result is the list of the events fired on
  \<open>_onDidPickElement\<close>, in order. The first element of an empty array is \<open>undefined\<close>.\<close>

definition onDidChangeSelection :: "'u file_stat list \<Rightarrow> 'u list" where
  "onDidChangeSelection sel =
     (case sel of
        [] \<Rightarrow> []
      | stat # _ \<Rightarrow> if \<not> isDirectory stat then [resource stat] else [])"

section \<open>Properties of DiagnosticsManager\<close>

subsection \<open>Receive calls keep the flag\<close>

lemma validate_receive: "validate (receive asUrl s c) = validate s"
  by (cases c) (simp_all add: syntaxDiagnosticsReceived_def semanticDiagnosticsReceived_def Let_def)

lemma validate_receive_all: "validate (receive_all asUrl s calls) = validate s"
  unfolding receive_all_def
  by (induction calls arbitrary: s) (simp_all add: validate_receive)

lemma receive_all_snoc:
  "receive_all asUrl s (calls @ [c]) = receive asUrl (receive_all asUrl s calls) c"
  by (simp add: receive_all_def)

subsection \<open>What one receive call does to the file it names, and to the others\<close>

lemma receive_same_file:
  "validate s \<Longrightarrow> received_file c = f \<Longrightarrow>
   currentDiagnostics (receive asUrl s c) (asUrl f) =
     Some (or_empty (semanticDiagnostics (receive asUrl s c) f) @
           or_empty (syntaxDiagnostics (receive asUrl s c) f))"
  by (cases c)
    (simp_all add: syntaxDiagnosticsReceived_def semanticDiagnosticsReceived_def Let_def
      collection_set_def or_empty_def)

lemma receive_other_file:
  "asUrl (received_file c) \<noteq> asUrl f \<Longrightarrow>
   currentDiagnostics (receive asUrl s c) (asUrl f) = currentDiagnostics s (asUrl f) \<and>
   semanticDiagnostics (receive asUrl s c) f = semanticDiagnostics s f \<and>
   syntaxDiagnostics (receive asUrl s c) f = syntaxDiagnostics s f"
  by (cases c)
    (auto simp add: syntaxDiagnosticsReceived_def semanticDiagnosticsReceived_def Let_def
      collection_set_def)

text \<open>The entry a mapping holds for a file after a run is the list delivered by the
  latest call of that kind for the file, and what it held before when there was none.\<close>

lemma stored_syntax_latest:
  assumes "validate s0"
  shows "or_empty (syntaxDiagnostics (receive_all asUrl s0 calls) f) =
         latest_syntax (or_empty (syntaxDiagnostics s0 f)) f calls"
proof (induction calls rule: rev_induct)
  case Nil
  then show ?case
    by (simp add: receive_all_def latest_syntax_def)
next
  case (snoc c calls)
  have v: "validate (receive_all asUrl s0 calls)"
    using assms by (simp add: validate_receive_all)
  show ?case using snoc v
    by (cases c)
      (simp_all add: receive_all_snoc latest_syntax_def syntaxDiagnosticsReceived_def
        semanticDiagnosticsReceived_def Let_def or_empty_def)
qed

lemma stored_semantic_latest:
  assumes "validate s0"
  shows "or_empty (semanticDiagnostics (receive_all asUrl s0 calls) f) =
         latest_semantic (or_empty (semanticDiagnostics s0 f)) f calls"
proof (induction calls rule: rev_induct)
  case Nil
  then show ?case
    by (simp add: receive_all_def latest_semantic_def)
next
  case (snoc c calls)
  have v: "validate (receive_all asUrl s0 calls)"
    using assms by (simp add: validate_receive_all)
  show ?case using snoc v
    by (cases c)
      (simp_all add: receive_all_snoc latest_semantic_def syntaxDiagnosticsReceived_def
        semanticDiagnosticsReceived_def Let_def or_empty_def)
qed

text \<open>What is published under the URI of a file after a run, in terms of the two
  mappings after the run, when no call of the run names another file with that URI.\<close>

lemma published_is_merged_mappings:
  assumes "validate s0"
    and "\<forall>c\<in>set calls. asUrl (received_file c) = asUrl f \<longrightarrow> received_file c = f"
  shows "currentDiagnostics (receive_all asUrl s0 calls) (asUrl f) =
         (if f \<in> received_file ` set calls
          then Some (or_empty (semanticDiagnostics (receive_all asUrl s0 calls) f) @
                     or_empty (syntaxDiagnostics (receive_all asUrl s0 calls) f))
          else currentDiagnostics s0 (asUrl f))"
  using assms(2)
proof (induction calls rule: rev_induct)
  case Nil
  then show ?case by (simp add: receive_all_def)
next
  case (snoc c calls)
  let ?s = "receive_all asUrl s0 calls"
  have v: "validate ?s" using assms(1) by (simp add: validate_receive_all)
  from snoc.prems
  have others: "\<forall>c\<in>set calls. asUrl (received_file c) = asUrl f \<longrightarrow> received_file c = f"
    and this_one: "asUrl (received_file c) = asUrl f \<longrightarrow> received_file c = f"
    by simp_all
  show ?case
  proof (cases "received_file c = f")
    case True
    from receive_same_file [OF v True, of asUrl] True show ?thesis
      by (simp add: receive_all_snoc)
  next
    case False
    with this_one have "asUrl (received_file c) \<noteq> asUrl f" by blast
    from snoc.IH [OF others] receive_other_file [OF this, of ?s] False show ?thesis
      by (simp add: receive_all_snoc)
  qed
qed

text \<open>
  Claim C1, as the code has it. Take a state in which validation is enabled, any run of
  \<open>syntaxDiagnosticsReceived\<close> and \<open>semanticDiagnosticsReceived\<close> calls, in any order and
  for any files, and a file \<open>f\<close> such that no call of the run names another file with
  the URI of \<open>f\<close>. Once a call has named \<open>f\<close>, the list published under the URI of \<open>f\<close>
  is the list most recently stored for \<open>f\<close> by a semantic call followed by the list
  most recently stored for \<open>f\<close> by a syntax call: the list the latest call of that kind
  delivered for \<open>f\<close>, what the mapping held for \<open>f\<close> before the run when the run has
  no such call, and the empty list when it held nothing. While no call has named \<open>f\<close>,
  what is published under its URI is what was published before the run.
\<close>

theorem published_is_semantic_then_syntax:
  assumes "validate s0"
    and "\<forall>c\<in>set calls. asUrl (received_file c) = asUrl f \<longrightarrow> received_file c = f"
  shows "currentDiagnostics (receive_all asUrl s0 calls) (asUrl f) =
         (if f \<in> received_file ` set calls
          then Some (latest_semantic (or_empty (semanticDiagnostics s0 f)) f calls @
                     latest_syntax (or_empty (syntaxDiagnostics s0 f)) f calls)
          else currentDiagnostics s0 (asUrl f))"
proof -
  note published_is_merged_mappings [OF assms]
  also have "or_empty (semanticDiagnostics (receive_all asUrl s0 calls) f) =
             latest_semantic (or_empty (semanticDiagnostics s0 f)) f calls"
    using assms(1) by (rule stored_semantic_latest)
  also have "or_empty (syntaxDiagnostics (receive_all asUrl s0 calls) f) =
             latest_syntax (or_empty (syntaxDiagnostics s0 f)) f calls"
    using assms(1) by (rule stored_syntax_latest)
  finally show ?thesis .
qed

text \<open>The spec's example: \<open>syntaxReceived("a.ts", [s1])\<close> then
  \<open>semanticReceived("a.ts", [m1])\<close> publishes \<open>[m1, s1]\<close> for \<open>a.ts\<close>; and with a
  call for another file in between, and a second syntax call, the list published for
  \<open>a.ts\<close> is the latest semantic list followed by the latest syntax list.\<close>

theorem published_is_semantic_then_syntax_witness:
  "validate (constructor :: (string, string) diagnostics_manager) \<and>
   ''a.ts'' \<in> received_file ` set [Syntax ''a.ts'' [''s1''], Semantic ''a.ts'' [''m1'']] \<and>
   currentDiagnostics
     (receive_all ((@) ''file:///'') constructor
        [Syntax ''a.ts'' [''s1''], Semantic ''a.ts'' [''m1'']])
     ''file:///a.ts'' = Some [''m1'', ''s1''] \<and>
   currentDiagnostics
     (receive_all ((@) ''file:///'') constructor
        [Syntax ''a.ts'' [''s1''], Semantic ''a.ts'' [''m1''], Semantic ''b.ts'' [''m2''],
         Syntax ''a.ts'' [''s3'', ''s4'']])
     ''file:///a.ts'' = Some [''m1'', ''s3'', ''s4'']"
proof -
  have v: "validate (constructor :: (string, string) diagnostics_manager)"
    by (simp add: constructor_def)
  have m: "''a.ts'' \<in> received_file ` set [Syntax ''a.ts'' [''s1''], Semantic ''a.ts'' [''m1'']]"
    by simp
  have u1: "\<forall>c\<in>set [Syntax ''a.ts'' [''s1''], Semantic ''a.ts'' [''m1'']].
      ''file:///'' @ received_file c = ''file:///'' @ ''a.ts'' \<longrightarrow> received_file c = ''a.ts''"
    by simp
  have u2: "\<forall>c\<in>set [Syntax ''a.ts'' [''s1''], Semantic ''a.ts'' [''m1''], Semantic ''b.ts'' [''m2''],
         Syntax ''a.ts'' [''s3'', ''s4'']].
      ''file:///'' @ received_file c = ''file:///'' @ ''a.ts'' \<longrightarrow> received_file c = ''a.ts''"
    by simp
  from published_is_semantic_then_syntax [where asUrl = "(@) ''file:///''", OF v u1]
  have p1: "currentDiagnostics
     (receive_all ((@) ''file:///'') constructor
        [Syntax ''a.ts'' [''s1''], Semantic ''a.ts'' [''m1'']])
     ''file:///a.ts'' = Some [''m1'', ''s1'']"
    by (simp add: latest_semantic_def latest_syntax_def constructor_def or_empty_def)
  from published_is_semantic_then_syntax [where asUrl = "(@) ''file:///''", OF v u2]
  have p2: "currentDiagnostics
     (receive_all ((@) ''file:///'') constructor
        [Syntax ''a.ts'' [''s1''], Semantic ''a.ts'' [''m1''], Semantic ''b.ts'' [''m2''],
         Syntax ''a.ts'' [''s3'', ''s4'']])
     ''file:///a.ts'' = Some [''m1'', ''s3'', ''s4'']"
    by (simp add: latest_semantic_def latest_syntax_def constructor_def or_empty_def)
  from v m p1 p2 show ?thesis by simp
qed

text \<open>
  The claim C1 as the spec words it is for every file. The mappings are keyed by the
  file's path and the published set by its URI, and \<open>asUrl\<close> can give one URI to two
  paths (here a path with and without its leading slash). A call for the second path
  then replaces what is published for the first: after syntax calls for \<open>/a.ts\<close> and
  then for \<open>a.ts\<close>, the list published under the URI of \<open>/a.ts\<close> is the list of
  \<open>a.ts\<close>, not the list most recently stored for \<open>/a.ts\<close>.
\<close>

theorem shared_uri_publishes_other_file:
  "((@) ''file:///'' \<circ> dropWhile ((=) CHR ''/'')) ''/a.ts'' =
   ((@) ''file:///'' \<circ> dropWhile ((=) CHR ''/'')) ''a.ts'' \<and>
   currentDiagnostics
     (receive_all ((@) ''file:///'' \<circ> dropWhile ((=) CHR ''/'')) constructor
        [Syntax ''/a.ts'' [''s1''], Syntax ''a.ts'' [''s2'']])
     (((@) ''file:///'' \<circ> dropWhile ((=) CHR ''/'')) ''/a.ts'') = Some [''s2''] \<and>
   or_empty
     (semanticDiagnostics
        (receive_all ((@) ''file:///'' \<circ> dropWhile ((=) CHR ''/'')) constructor
           [Syntax ''/a.ts'' [''s1''], Syntax ''a.ts'' [''s2'']]) ''/a.ts'') @
   or_empty
     (syntaxDiagnostics
        (receive_all ((@) ''file:///'' \<circ> dropWhile ((=) CHR ''/'')) constructor
           [Syntax ''/a.ts'' [''s1''], Syntax ''a.ts'' [''s2'']]) ''/a.ts'') = [''s1''] \<and>
   latest_semantic [] ''/a.ts'' [Syntax ''/a.ts'' [''s1''], Syntax ''a.ts'' [''s2'']] @
   latest_syntax [] ''/a.ts'' [Syntax ''/a.ts'' [''s1''], Syntax ''a.ts'' [''s2'']] = [''s1'']"
  by (simp add: receive_all_def syntaxDiagnosticsReceived_def semanticDiagnosticsReceived_def
      Let_def constructor_def or_empty_def collection_set_def collection_clear_def
      latest_semantic_def latest_syntax_def)

text \<open>
  Claim C7. \<open>configFileDiagnosticsReceived(f, d)\<close> publishes \<open>d\<close> under the URI of \<open>f\<close>
  and \<open>delete(f)\<close> removes the entry published under that URI, in every state: whether
  validation is enabled or not. Neither touches the flag or the two mappings.
\<close>

theorem config_and_delete_bypass_validation:
  "currentDiagnostics (configFileDiagnosticsReceived asUrl f d s) (asUrl f) = Some d \<and>
   currentDiagnostics (delete_file asUrl f s) (asUrl f) = None \<and>
   validate (configFileDiagnosticsReceived asUrl f d s) = validate s \<and>
   validate (delete_file asUrl f s) = validate s \<and>
   syntaxDiagnostics (configFileDiagnosticsReceived asUrl f d s) = syntaxDiagnostics s \<and>
   semanticDiagnostics (configFileDiagnosticsReceived asUrl f d s) = semanticDiagnostics s \<and>
   syntaxDiagnostics (delete_file asUrl f s) = syntaxDiagnostics s \<and>
   semanticDiagnostics (delete_file asUrl f s) = semanticDiagnostics s"
  by (simp add: configFileDiagnosticsReceived_def delete_file_def collection_set_def
      collection_delete_def)

text \<open>
  Claim C10. \<open>syntaxDiagnosticsReceived(f, d)\<close> leaves the semantic mapping as it was,
  leaves the syntax entry of every other file \<open>g\<close> as it was, and leaves what is
  published under every URI other than the one of \<open>f\<close> as it was; the same holds for
  \<open>semanticDiagnosticsReceived(f, d)\<close> with the two mappings exchanged.
\<close>

theorem receive_frame:
  assumes "g \<noteq> f" and "u \<noteq> asUrl f"
  shows "semanticDiagnostics (syntaxDiagnosticsReceived asUrl f d s) = semanticDiagnostics s \<and>
   syntaxDiagnostics (syntaxDiagnosticsReceived asUrl f d s) g = syntaxDiagnostics s g \<and>
   currentDiagnostics (syntaxDiagnosticsReceived asUrl f d s) u = currentDiagnostics s u \<and>
   syntaxDiagnostics (semanticDiagnosticsReceived asUrl f d s) = syntaxDiagnostics s \<and>
   semanticDiagnostics (semanticDiagnosticsReceived asUrl f d s) g = semanticDiagnostics s g \<and>
   currentDiagnostics (semanticDiagnosticsReceived asUrl f d s) u = currentDiagnostics s u"
  using assms
  by (simp add: syntaxDiagnosticsReceived_def semanticDiagnosticsReceived_def Let_def collection_set_def)

theorem receive_frame_witness:
  "''b.ts'' \<noteq> ''a.ts'' \<and> ''file:///b.ts'' \<noteq> ''file:///'' @ ''a.ts'' \<and>
   syntaxDiagnostics
     (syntaxDiagnosticsReceived ((@) ''file:///'') ''a.ts'' [''s1'']
        (receive_all ((@) ''file:///'') constructor
           [Syntax ''b.ts'' [''s2''], Semantic ''a.ts'' [''m0'']])) ''b.ts'' = Some [''s2''] \<and>
   currentDiagnostics
     (syntaxDiagnosticsReceived ((@) ''file:///'') ''a.ts'' [''s1'']
        (receive_all ((@) ''file:///'') constructor
           [Syntax ''b.ts'' [''s2''], Semantic ''a.ts'' [''m0'']])) ''file:///b.ts'' = Some [''s2''] \<and>
   semanticDiagnostics
     (semanticDiagnosticsReceived ((@) ''file:///'') ''a.ts'' [''m1'']
        (receive_all ((@) ''file:///'') constructor
           [Syntax ''b.ts'' [''s2''], Semantic ''a.ts'' [''m0'']])) ''b.ts'' = None \<and>
   currentDiagnostics
     (semanticDiagnosticsReceived ((@) ''file:///'') ''a.ts'' [''m1'']
        (receive_all ((@) ''file:///'') constructor
           [Syntax ''b.ts'' [''s2''], Semantic ''a.ts'' [''m0'']])) ''file:///b.ts'' = Some [''s2'']"
proof -
  have h1: "''b.ts'' \<noteq> ''a.ts''" by simp
  have h2: "''file:///b.ts'' \<noteq> ''file:///'' @ ''a.ts''" by simp
  have s: "syntaxDiagnostics (receive_all ((@) ''file:///'') (constructor :: (string, string) diagnostics_manager)
           [Syntax ''b.ts'' [''s2''], Semantic ''a.ts'' [''m0'']]) ''b.ts'' = Some [''s2'']"
    by (simp add: receive_all_def syntaxDiagnosticsReceived_def semanticDiagnosticsReceived_def
        Let_def constructor_def)
  have m: "semanticDiagnostics (receive_all ((@) ''file:///'') (constructor :: (string, string) diagnostics_manager)
           [Syntax ''b.ts'' [''s2''], Semantic ''a.ts'' [''m0'']]) ''b.ts'' = None"
    by (simp add: receive_all_def syntaxDiagnosticsReceived_def semanticDiagnosticsReceived_def
        Let_def constructor_def)
  have c: "currentDiagnostics (receive_all ((@) ''file:///'') (constructor :: (string, string) diagnostics_manager)
           [Syntax ''b.ts'' [''s2''], Semantic ''a.ts'' [''m0'']]) ''file:///b.ts'' = Some [''s2'']"
    by (simp add: receive_all_def syntaxDiagnosticsReceived_def semanticDiagnosticsReceived_def
        Let_def constructor_def or_empty_def collection_set_def collection_clear_def)
  from receive_frame [where g = "''b.ts''" and f = "''a.ts''" and u = "''file:///b.ts''"
      and asUrl = "(@) ''file:///''" and d = "[''s1'']"
      and s = "receive_all ((@) ''file:///'') constructor
                 [Syntax ''b.ts'' [''s2''], Semantic ''a.ts'' [''m0'']]"]
    receive_frame [where g = "''b.ts''" and f = "''a.ts''" and u = "''file:///b.ts''"
      and asUrl = "(@) ''file:///''" and d = "[''m1'']"
      and s = "receive_all ((@) ''file:///'') constructor
                 [Syntax ''b.ts'' [''s2''], Semantic ''a.ts'' [''m0'']]"]
    h1 h2 s m c
  show ?thesis by simp
qed

text \<open>
  Claim C5, as the code has it. \<open>updateValidate(false)\<close> called while validation is
  enabled empties both mappings and the whole published set in that one call and turns
  the flag off. While the flag is off, \<open>updateValidate(false)\<close> returns at once,
  \<open>syntaxDiagnosticsReceived\<close> and \<open>semanticDiagnosticsReceived\<close> (and every run of
  them) leave the state as it is, and \<open>updateValidate(true)\<close> only turns the flag on:
  nothing is published until the next receive call, which publishes for its file.
\<close>

theorem updateValidate_gate:
  "(validate s \<longrightarrow>
      syntaxDiagnostics (updateValidate False s) = Map.empty \<and>
      semanticDiagnostics (updateValidate False s) = Map.empty \<and>
      currentDiagnostics (updateValidate False s) = Map.empty \<and>
      \<not> validate (updateValidate False s)) \<and>
   (\<not> validate s \<longrightarrow>
      updateValidate False s = s \<and>
      syntaxDiagnosticsReceived asUrl f d s = s \<and>
      semanticDiagnosticsReceived asUrl f d s = s \<and>
      receive_all asUrl s calls = s \<and>
      updateValidate True s = s\<lparr>validate := True\<rparr> \<and>
      currentDiagnostics (syntaxDiagnosticsReceived asUrl f d (updateValidate True s)) (asUrl f) =
        Some (or_empty (semanticDiagnostics s f) @ d))"
proof -
  have "receive_all asUrl s calls = s" if "\<not> validate s"
    unfolding receive_all_def using that
  proof (induction calls)
    case Nil
    then show ?case by simp
  next
    case (Cons c calls)
    then show ?case
      by (cases c) (simp_all add: syntaxDiagnosticsReceived_def semanticDiagnosticsReceived_def)
  qed
  then show ?thesis
    by (simp add: updateValidate_def syntaxDiagnosticsReceived_def semanticDiagnosticsReceived_def
        collection_clear_def collection_set_def Let_def)
qed

theorem updateValidate_gate_witness:
  "validate (syntaxDiagnosticsReceived ((@) ''file:///'') ''a.ts'' [''s1'']
      (constructor :: (string, string) diagnostics_manager)) \<and>
   currentDiagnostics
     (updateValidate False
        (syntaxDiagnosticsReceived ((@) ''file:///'') ''a.ts'' [''s1''] constructor)) =
     (Map.empty :: string \<rightharpoonup> string list) \<and>
   \<not> validate
     (updateValidate False
        (syntaxDiagnosticsReceived ((@) ''file:///'') ''a.ts'' [''s1'']
           (constructor :: (string, string) diagnostics_manager))) \<and>
   semanticDiagnosticsReceived ((@) ''file:///'') ''a.ts'' [''m1'']
     (updateValidate False
        (syntaxDiagnosticsReceived ((@) ''file:///'') ''a.ts'' [''s1''] constructor)) =
     updateValidate False
       (syntaxDiagnosticsReceived ((@) ''file:///'') ''a.ts'' [''s1'']
          (constructor :: (string, string) diagnostics_manager)) \<and>
   currentDiagnostics
     (updateValidate True
        (updateValidate False
           (syntaxDiagnosticsReceived ((@) ''file:///'') ''a.ts'' [''s1'']
              (constructor :: (string, string) diagnostics_manager))))
     ''file:///a.ts'' = None"
proof -
  let ?s = "syntaxDiagnosticsReceived ((@) ''file:///'') ''a.ts'' [''s1'']
              (constructor :: (string, string) diagnostics_manager)"
  have on: "validate ?s"
    by (simp add: syntaxDiagnosticsReceived_def constructor_def Let_def)
  have off: "\<not> validate (updateValidate False ?s)"
    using on by (simp add: updateValidate_def)
  from updateValidate_gate [where s = ?s] on
  have cleared: "currentDiagnostics (updateValidate False ?s) = Map.empty"
    by simp
  from updateValidate_gate [where s = "updateValidate False ?s" and asUrl = "(@) ''file:///''"
      and f = "''a.ts''" and d = "[''m1'']"] off
  have noop: "semanticDiagnosticsReceived ((@) ''file:///'') ''a.ts'' [''m1'']
                (updateValidate False ?s) = updateValidate False ?s"
    and reenabled: "updateValidate True (updateValidate False ?s) =
                (updateValidate False ?s)\<lparr>validate := True\<rparr>"
    by simp_all
  from on off cleared noop reenabled show ?thesis by simp
qed

text \<open>
  The claim C5 as the spec words it says that calling \<open>updateValidate(false)\<close> clears
  the entire published set. It does not when validation is already disabled: the call
  returns at the guard \<open>this._validate === value\<close>, and what
  \<open>configFileDiagnosticsReceived\<close> has published since validation was disabled stays.
\<close>

theorem updateValidate_when_disabled_keeps_published:
  "\<not> validate
      (configFileDiagnosticsReceived ((@) ''file:///'') ''tsconfig.json'' [''e'']
         (updateValidate False (constructor :: (string, string) diagnostics_manager))) \<and>
   currentDiagnostics
     (updateValidate False
        (configFileDiagnosticsReceived ((@) ''file:///'') ''tsconfig.json'' [''e'']
           (updateValidate False (constructor :: (string, string) diagnostics_manager))))
     ''file:///tsconfig.json'' = Some [''e'']"
  by (simp add: updateValidate_def configFileDiagnosticsReceived_def constructor_def collection_set_def)

section \<open>Properties of TagClosing\<close>

lemmas tag_closing_eval = run_def new_TagClosing_def onDidChangeTextDocument_def Let_def
  char_at_def cancel_pending_def timer_callback_def response_received_def getTagSnippet_def
  getInsertionPositions_def isEqual_def clearTimeout_def cancel_and_dispose_def dispose_def

subsection \<open>The invariant\<close>

lemma cancel_pending_same [simp]:
  "requests (cancel_pending s) = requests s"
  "next_handle (cancel_pending s) = next_handle s"
  "timeout (cancel_pending s) = timeout s"
  "disposed (cancel_pending s) = disposed s"
  "listening (cancel_pending s) = listening s"
  "activeTextEditor (cancel_pending s) = activeTextEditor s"
  "version (cancel_pending s) = version s"
  "uri (cancel_pending s) = uri s"
  "inserted (cancel_pending s) = inserted s"
  by (simp_all add: cancel_pending_def clearTimeout_def cancel_and_dispose_def Let_def
      split: option.splits)

lemma filter_all_out: "(\<forall>x\<in>set xs. \<not> P x) \<Longrightarrow> filter P xs = []"
  by (induction xs) auto

lemma cancel_pending_clears:
  assumes "tag_closing_inv s"
  shows "timers (cancel_pending s) = []" and "tokens (cancel_pending s) = []"
    and "cancel (cancel_pending s) = None"
proof -
  from assms have t: "\<forall>t\<in>set (timers s). timeout s = Some (timer_id t)"
    and c: "\<forall>c\<in>set (tokens s). cancel s = Some c"
    by (simp_all add: tag_closing_inv_def)
  show "timers (cancel_pending s) = []"
  proof (cases "timeout s")
    case None
    with t have "timers s = []" by (cases "timers s") auto
    with None show ?thesis
      by (simp add: cancel_pending_def cancel_and_dispose_def Let_def split: option.splits)
  next
    case (Some h)
    with t have "filter (\<lambda>t. timer_id t \<noteq> h) (timers s) = []"
      by (intro filter_all_out) auto
    with Some show ?thesis
      by (simp add: cancel_pending_def cancel_and_dispose_def clearTimeout_def Let_def split: option.splits)
  qed
  show "tokens (cancel_pending s) = []"
  proof (cases "cancel s")
    case None
    with c have "tokens s = []" by (cases "tokens s") auto
    with None show ?thesis
      by (simp add: cancel_pending_def clearTimeout_def Let_def split: option.splits)
  next
    case (Some k)
    with c have "filter (\<lambda>c. c \<noteq> k) (tokens s) = []"
      by (intro filter_all_out) auto
    with Some show ?thesis
      by (simp add: cancel_pending_def cancel_and_dispose_def clearTimeout_def Let_def split: option.splits)
  qed
  show "cancel (cancel_pending s) = None"
    by (simp add: cancel_pending_def cancel_and_dispose_def clearTimeout_def Let_def split: option.splits)
qed

lemma inv_cancel_pending: "tag_closing_inv s \<Longrightarrow> tag_closing_inv (cancel_pending s)"
  using cancel_pending_clears [of s] by (simp add: tag_closing_inv_def)

lemma inv_onDidChangeTextDocument:
  assumes "tag_closing_inv s"
  shows "tag_closing_inv (onDidChangeTextDocument toPath doc changes s)"
proof -
  note c = cancel_pending_clears [OF assms]
  have i: "tag_closing_inv (cancel_pending s)" using assms by (rule inv_cancel_pending)
  have r: "\<forall>r\<in>set (requests s). request_token r < next_handle s"
    and d: "distinct (map request_token (requests s))"
    using assms by (simp_all add: tag_closing_inv_def)
  show ?thesis
    using assms i c r d
    by (auto simp add: onDidChangeTextDocument_def Let_def tag_closing_inv_def less_Suc_eq split: option.splits)
qed

lemma inv_timer_callback:
  assumes "tag_closing_inv s" and "timers s = []" and "tokens s = []"
  shows "tag_closing_inv (timer_callback t s)"
  using assms
  by (auto simp add: timer_callback_def Let_def tag_closing_inv_def less_Suc_eq)

lemma inv_response_received: "tag_closing_inv s \<Longrightarrow> tag_closing_inv (response_received r rep s)"
  by (auto simp add: response_received_def Let_def tag_closing_inv_def split: reply.splits option.splits)

lemma inv_dispose: "tag_closing_inv s \<Longrightarrow> tag_closing_inv (dispose s)"
proof -
  assume a: "tag_closing_inv s"
  have "dispose s = (cancel_pending s)\<lparr>disposed := True, listening := False, timeout := None\<rparr>"
    by (simp add: dispose_def cancel_pending_def clearTimeout_def cancel_and_dispose_def Let_def
        split: option.splits)
  with cancel_pending_clears [OF a] a show ?thesis
    by (simp add: tag_closing_inv_def)
qed

lemma inv_step: assumes "tag_closing_inv s" shows "tag_closing_inv (step toPath s ev)"
proof (cases ev)
  case (DocumentChanged doc changes)
  with assms show ?thesis by (simp add: inv_onDidChangeTextDocument)
next
  case (TimerElapsed h)
  show ?thesis
  proof (cases "find (\<lambda>t. timer_id t = h) (timers s)")
    case None
    with TimerElapsed assms show ?thesis by simp
  next
    case (Some t)
    then have "timers s \<noteq> []" by (cases "timers s") auto
    with assms have one: "length (timers s) = 1" and nt: "tokens s = []"
      by (auto simp add: tag_closing_inv_def Suc_le_eq le_Suc_eq)
    from one obtain t' where tt: "timers s = [t']" by (cases "timers s") auto
    with Some have "timer_id t' = h" by (auto split: if_splits)
    with tt have e: "filter (\<lambda>t. timer_id t \<noteq> h) (timers s) = []" by simp
    have "tag_closing_inv (s\<lparr>timers := []\<rparr>)" using assms nt by (simp add: tag_closing_inv_def)
    then have "tag_closing_inv (timer_callback t (s\<lparr>timers := []\<rparr>))"
      using nt by (intro inv_timer_callback) simp_all
    with TimerElapsed Some e show ?thesis by simp
  qed
next
  case (Settled i rep)
  show ?thesis
  proof (cases "find (\<lambda>r. request_id r = i) (requests s)")
    case None
    with Settled assms show ?thesis by simp
  next
    case (Some r)
    have "tag_closing_inv (s\<lparr>requests := filter (\<lambda>r. request_id r \<noteq> i) (requests s)\<rparr>)"
      using assms by (auto simp add: tag_closing_inv_def distinct_map_filter)
    then show ?thesis using Settled Some by (simp add: inv_response_received)
  qed
next
  case Disposed
  with assms show ?thesis by (simp add: inv_dispose)
next
  case (ActiveEditorChanged ed)
  with assms show ?thesis by (simp add: tag_closing_inv_def)
next
  case (VersionChanged doc v)
  with assms show ?thesis by (simp add: tag_closing_inv_def)
qed

lemma inv_new: "tag_closing_inv (new_TagClosing ed vs us)"
  by (simp add: tag_closing_inv_def new_TagClosing_def)

lemma inv_run: "tag_closing_inv s \<Longrightarrow> tag_closing_inv (run toPath s evs)"
  unfolding run_def by (induction evs arbitrary: s) (simp_all add: inv_step)

lemma distinct_filter_le1:
  "distinct (map f xs) \<Longrightarrow> length (filter (\<lambda>x. f x = c) xs) \<le> 1"
proof (induction xs)
  case Nil
  then show ?case by simp
next
  case (Cons x xs)
  show ?case
  proof (cases "f x = c")
    case True
    with Cons.prems have "\<forall>y\<in>set xs. f y \<noteq> c" by (auto simp add: image_iff)
    then have "filter (\<lambda>x. f x = c) xs = []" by (induction xs) auto
    with True show ?thesis by simp
  next
    case False
    with Cons show ?thesis by simp
  qed
qed

lemma inv_live_requests: assumes "tag_closing_inv s" shows "length (live_requests s) \<le> 1"
proof (cases "tokens s")
  case Nil
  then show ?thesis by (simp add: live_requests_def)
next
  case (Cons c cs)
  with assms have "tokens s = [c]" by (simp add: tag_closing_inv_def)
  then have "live_requests s = filter (\<lambda>r. request_token r = c) (requests s)"
    by (simp add: live_requests_def)
  moreover from assms have "distinct (map request_token (requests s))"
    by (simp add: tag_closing_inv_def)
  ultimately show ?thesis using distinct_filter_le1 [of request_token "requests s" c] by simp
qed

subsection \<open>The three outcomes of the change handler\<close>

lemma last_character:
  "char_at t (int (length t) - 1) = (if t = [] then None else Some (last t))"
  by (auto simp add: char_at_def last_conv_nth nat_diff_distrib')

lemma second_to_last_character:
  "char_at t (int (length t) - 2) = (if length t < 2 then None else Some (t ! (length t - 2)))"
  by (auto simp add: char_at_def nat_diff_distrib')

lemma active_flip: "(Some doc \<noteq> m) = (m \<noteq> Some doc)"
  by auto

lemma not_handled: "\<not> handled toPath doc changes s \<Longrightarrow> onDidChangeTextDocument toPath doc changes s = s"
  by (auto simp add: handled_def falsy_def onDidChangeTextDocument_def Let_def active_flip
      simp del: not_None_eq split: option.splits)

lemma handled_not_triggered:
  "handled toPath doc changes s \<Longrightarrow> \<not> triggers (last changes) \<Longrightarrow>
   onDidChangeTextDocument toPath doc changes s = cancel_pending s"
  by (auto simp add: handled_def falsy_def onDidChangeTextDocument_def Let_def triggers_def
      last_character second_to_last_character last_conv_nth active_flip split: option.splits)

lemma handled_triggered:
  "handled toPath doc changes s \<Longrightarrow> triggers (last changes) \<Longrightarrow>
   timers (onDidChangeTextDocument toPath doc changes s) =
     timers (cancel_pending s) @
       [\<lparr>timer_id = next_handle s, delay = 100, timer_document = doc,
         timer_version = version s doc, timer_rangeStart = range_start (last changes),
         timer_text = change_text (last changes), timer_filepath = the (toPath (uri s doc))\<rparr>] \<and>
   tokens (onDidChangeTextDocument toPath doc changes s) = tokens (cancel_pending s) \<and>
   cancel (onDidChangeTextDocument toPath doc changes s) = cancel (cancel_pending s) \<and>
   timeout (onDidChangeTextDocument toPath doc changes s) = Some (next_handle s)"
  by (auto simp add: handled_def falsy_def onDidChangeTextDocument_def Let_def triggers_def
      last_character second_to_last_character last_conv_nth active_flip split: option.splits)

text \<open>
  Claim C6. In every state the component reaches from its constructor, by any events in
  any order, at most one timer is armed, at most one token source is live (neither
  cancelled nor disposed), and at most one request is in flight with a live token. When
  the handler processes an edit that qualifies (a batch it handles whose last change
  passes the trigger check), the state it leaves has the new timer as the only armed
  one, under a handle no armed timer had, and no live token: the timer and the token
  from before are cleared and cancelled before the new timer is created.
\<close>

theorem at_most_one_timer_and_token:
  assumes "s = run toPath (new_TagClosing ed vs us) evs"
  shows "length (timers s) \<le> 1 \<and> length (tokens s) \<le> 1 \<and> length (live_requests s) \<le> 1 \<and>
    (handled toPath doc changes s \<and> triggers (last changes) \<longrightarrow>
       map timer_id (timers (onDidChangeTextDocument toPath doc changes s)) = [next_handle s] \<and>
       next_handle s \<notin> timer_id ` set (timers s) \<and>
       tokens (onDidChangeTextDocument toPath doc changes s) = [] \<and>
       cancel (onDidChangeTextDocument toPath doc changes s) = None \<and>
       timeout (onDidChangeTextDocument toPath doc changes s) = Some (next_handle s))"
proof -
  have i: "tag_closing_inv s" unfolding assms by (rule inv_run) (rule inv_new)
  then have "length (timers s) \<le> 1" and "length (tokens s) \<le> 1"
    and fresh: "\<forall>t\<in>set (timers s). timer_id t < next_handle s"
    by (simp_all add: tag_closing_inv_def)
  moreover have "length (live_requests s) \<le> 1" using i by (rule inv_live_requests)
  moreover have "next_handle s \<notin> timer_id ` set (timers s)" using fresh by auto
  moreover note handled_triggered [of toPath doc changes s] cancel_pending_clears [OF i]
  ultimately show ?thesis by simp
qed

theorem at_most_one_timer_and_token_witness:
  "tokens
     (run Some (new_TagClosing (Some \<lparr>document = 0, selections = []\<rparr>) ((!) [1]) ((!) [''file:///a.tsx'']))
        [DocumentChanged 0
           [\<lparr>range_start = \<lparr>line = 0, character = 4\<rparr>, rangeLength = 0, change_text = ''/''\<rparr>],
         TimerElapsed 0]) = [1] \<and>
   handled Some 0
     [\<lparr>range_start = \<lparr>line = 0, character = 5\<rparr>, rangeLength = 0, change_text = ''>''\<rparr>]
     (run Some (new_TagClosing (Some \<lparr>document = 0, selections = []\<rparr>) ((!) [1]) ((!) [''file:///a.tsx'']))
        [DocumentChanged 0
           [\<lparr>range_start = \<lparr>line = 0, character = 4\<rparr>, rangeLength = 0, change_text = ''/''\<rparr>],
         TimerElapsed 0]) \<and>
   triggers (last [\<lparr>range_start = \<lparr>line = 0, character = 5\<rparr>, rangeLength = 0, change_text = ''>''\<rparr>]) \<and>
   map timer_id
     (timers
        (onDidChangeTextDocument Some 0
           [\<lparr>range_start = \<lparr>line = 0, character = 5\<rparr>, rangeLength = 0, change_text = ''>''\<rparr>]
           (run Some (new_TagClosing (Some \<lparr>document = 0, selections = []\<rparr>) ((!) [1]) ((!) [''file:///a.tsx'']))
              [DocumentChanged 0
                 [\<lparr>range_start = \<lparr>line = 0, character = 4\<rparr>, rangeLength = 0, change_text = ''/''\<rparr>],
               TimerElapsed 0]))) = [3] \<and>
   tokens
     (onDidChangeTextDocument Some 0
        [\<lparr>range_start = \<lparr>line = 0, character = 5\<rparr>, rangeLength = 0, change_text = ''>''\<rparr>]
        (run Some (new_TagClosing (Some \<lparr>document = 0, selections = []\<rparr>) ((!) [1]) ((!) [''file:///a.tsx'']))
           [DocumentChanged 0
              [\<lparr>range_start = \<lparr>line = 0, character = 4\<rparr>, rangeLength = 0, change_text = ''/''\<rparr>],
            TimerElapsed 0])) = []"
proof -
  let ?s = "run Some (new_TagClosing (Some \<lparr>document = 0, selections = []\<rparr>) ((!) [1]) ((!) [''file:///a.tsx'']))
        [DocumentChanged 0
           [\<lparr>range_start = \<lparr>line = 0, character = 4\<rparr>, rangeLength = 0, change_text = ''/''\<rparr>],
         TimerElapsed 0]"
  let ?b = "[\<lparr>range_start = \<lparr>line = 0, character = 5\<rparr>, rangeLength = 0, change_text = ''>''\<rparr>]"
  have live: "tokens ?s = [1]" by (simp add: tag_closing_eval)
  have h: "handled Some 0 ?b ?s" by (simp add: handled_def falsy_def tag_closing_eval)
  have t: "triggers (last ?b)" by (simp add: triggers_def)
  have n: "next_handle ?s = 3" by (simp add: tag_closing_eval)
  from at_most_one_timer_and_token [where s = ?s and toPath = Some and doc = 0 and changes = ?b, OF refl]
    live h t n
  show ?thesis by simp
qed

text \<open>
  Claim C3, as the code has it. For a state the component reaches and a batch of
  changes delivered to the handler: a new timer is armed exactly when the batch is
  handled (it is for the active document, it is not empty, and the client has a path
  for the document) and its last change passes the trigger check (nothing replaced, the
  inserted text ends in \<open>>\<close> or \<open>/\<close>, and the character before the last is not
  \<open>>\<close>); the timer armed has a delay of 100 ms. Every batch that is handled cancels
  what was pending, before the trigger check and whatever its outcome: afterwards no
  token is live, \<open>_cancel\<close> is empty and no timer armed before is still armed. A batch
  that is not handled changes nothing.
\<close>

theorem timer_armed_iff_handled_and_triggered:
  assumes "s = run toPath (new_TagClosing ed vs us) evs"
    and "s' = onDidChangeTextDocument toPath doc changes s"
  shows "(arms_timer s s' \<longleftrightarrow> handled toPath doc changes s \<and> triggers (last changes)) \<and>
    (arms_timer s s' \<longrightarrow> map delay (timers s') = [100] \<and> map timer_id (timers s') = [next_handle s]) \<and>
    (handled toPath doc changes s \<longrightarrow>
       tokens s' = [] \<and> cancel s' = None \<and> set (timers s') \<inter> set (timers s) = {}) \<and>
    (\<not> handled toPath doc changes s \<longrightarrow> s' = s)"
proof -
  have i: "tag_closing_inv s" unfolding assms(1) by (rule inv_run) (rule inv_new)
  then have fresh: "\<forall>t\<in>set (timers s). timer_id t < next_handle s"
    by (simp add: tag_closing_inv_def)
  note c = cancel_pending_clears [OF i]
  show ?thesis
  proof (cases "handled toPath doc changes s")
    case False
    then show ?thesis
      by (simp add: assms(2) not_handled arms_timer_def)
  next
    case h: True
    show ?thesis
    proof (cases "triggers (last changes)")
      case False
      with h c show ?thesis
        by (simp add: assms(2) handled_not_triggered arms_timer_def)
    next
      case True
      with h c handled_triggered [of toPath doc changes s] fresh show ?thesis
        by (auto simp add: assms(2) arms_timer_def)
    qed
  qed
qed

theorem timer_armed_iff_handled_and_triggered_witness:
  "handled Some 0
     [\<lparr>range_start = \<lparr>line = 0, character = 4\<rparr>, rangeLength = 0, change_text = ''/''\<rparr>]
     (run Some (new_TagClosing (Some \<lparr>document = 0, selections = []\<rparr>) ((!) [1]) ((!) [''file:///a.tsx''])) []) \<and>
   triggers (last [\<lparr>range_start = \<lparr>line = 0, character = 4\<rparr>, rangeLength = 0, change_text = ''/''\<rparr>]) \<and>
   arms_timer
     (run Some (new_TagClosing (Some \<lparr>document = 0, selections = []\<rparr>) ((!) [1]) ((!) [''file:///a.tsx''])) [])
     (onDidChangeTextDocument Some 0
        [\<lparr>range_start = \<lparr>line = 0, character = 4\<rparr>, rangeLength = 0, change_text = ''/''\<rparr>]
        (run Some (new_TagClosing (Some \<lparr>document = 0, selections = []\<rparr>) ((!) [1]) ((!) [''file:///a.tsx''])) [])) \<and>
   map delay
     (timers
        (onDidChangeTextDocument Some 0
           [\<lparr>range_start = \<lparr>line = 0, character = 4\<rparr>, rangeLength = 0, change_text = ''/''\<rparr>]
           (run Some (new_TagClosing (Some \<lparr>document = 0, selections = []\<rparr>) ((!) [1]) ((!) [''file:///a.tsx''])) []))) =
     [100] \<and>
   \<not> handled Some 1
     [\<lparr>range_start = \<lparr>line = 0, character = 4\<rparr>, rangeLength = 0, change_text = ''/''\<rparr>]
     (run Some (new_TagClosing (Some \<lparr>document = 0, selections = []\<rparr>) ((!) [1]) ((!) [''file:///a.tsx''])) []) \<and>
   \<not> arms_timer
     (run Some (new_TagClosing (Some \<lparr>document = 0, selections = []\<rparr>) ((!) [1]) ((!) [''file:///a.tsx''])) [])
     (onDidChangeTextDocument Some 1
        [\<lparr>range_start = \<lparr>line = 0, character = 4\<rparr>, rangeLength = 0, change_text = ''/''\<rparr>]
        (run Some (new_TagClosing (Some \<lparr>document = 0, selections = []\<rparr>) ((!) [1]) ((!) [''file:///a.tsx''])) []))"
proof -
  let ?s = "run Some (new_TagClosing (Some \<lparr>document = 0, selections = []\<rparr>) ((!) [1]) ((!) [''file:///a.tsx''])) []"
  let ?b = "[\<lparr>range_start = \<lparr>line = 0, character = 4\<rparr>, rangeLength = 0, change_text = ''/''\<rparr>]"
  have h: "handled Some 0 ?b ?s" by (simp add: handled_def falsy_def tag_closing_eval)
  have t: "triggers (last ?b)" by (simp add: triggers_def)
  have nh: "\<not> handled Some 1 ?b ?s" by (simp add: handled_def falsy_def tag_closing_eval)
  note at0 = timer_armed_iff_handled_and_triggered
      [where s = ?s and toPath = Some and doc = 0 and changes = ?b, OF refl refl]
  note at1 = timer_armed_iff_handled_and_triggered
      [where s = ?s and toPath = Some and doc = 1 and changes = ?b, OF refl refl]
  from at0 h t have a: "arms_timer ?s (onDidChangeTextDocument Some 0 ?b ?s)"
    by blast
  with at0 have d: "map delay (timers (onDidChangeTextDocument Some 0 ?b ?s)) = [100]"
    by blast
  from at1 nh have na: "\<not> arms_timer ?s (onDidChangeTextDocument Some 1 ?b ?s)"
    by blast
  from h t a d nh na show ?thesis by blast
qed

text \<open>
  The claim C3 as the spec words it has the cancellation after the trigger check, so
  that a batch for the active document that fails the check would leave the armed timer
  pending. In the code the cancellation comes first: with a timer armed by a \<open>/\<close>, a
  batch for the same document whose last change inserts \<open>a\<close> fails the check and the
  timer is no longer armed. And the claim's three conditions are not enough for a timer:
  a batch that meets them arms none when the client has no path for the document.
\<close>

theorem failed_trigger_check_cancels_timer:
  "map timer_id
     (timers
        (run Some (new_TagClosing (Some \<lparr>document = 0, selections = []\<rparr>) ((!) [1]) ((!) [''file:///a.tsx'']))
           [DocumentChanged 0
              [\<lparr>range_start = \<lparr>line = 0, character = 4\<rparr>, rangeLength = 0, change_text = ''/''\<rparr>]])) = [0] \<and>
   \<not> triggers (last [\<lparr>range_start = \<lparr>line = 0, character = 5\<rparr>, rangeLength = 0, change_text = ''a''\<rparr>]) \<and>
   timers
     (onDidChangeTextDocument Some 0
        [\<lparr>range_start = \<lparr>line = 0, character = 5\<rparr>, rangeLength = 0, change_text = ''a''\<rparr>]
        (run Some (new_TagClosing (Some \<lparr>document = 0, selections = []\<rparr>) ((!) [1]) ((!) [''file:///a.tsx'']))
           [DocumentChanged 0
              [\<lparr>range_start = \<lparr>line = 0, character = 4\<rparr>, rangeLength = 0, change_text = ''/''\<rparr>]])) = [] \<and>
   map_option document
     (activeTextEditor
        (new_TagClosing (Some \<lparr>document = 0, selections = []\<rparr>) ((!) [1]) ((!) [''git:/a.tsx'']))) = Some 0 \<and>
   triggers (last [\<lparr>range_start = \<lparr>line = 0, character = 4\<rparr>, rangeLength = 0, change_text = ''/''\<rparr>]) \<and>
   timers
     (onDidChangeTextDocument (map_of [(''file:///a.tsx'', ''/a.tsx'')]) 0
        [\<lparr>range_start = \<lparr>line = 0, character = 4\<rparr>, rangeLength = 0, change_text = ''/''\<rparr>]
        (new_TagClosing (Some \<lparr>document = 0, selections = []\<rparr>) ((!) [1]) ((!) [''git:/a.tsx'']))) = []"
  by (simp add: tag_closing_eval triggers_def)

text \<open>
  Claim C2. When the promise of a request resolves with a body, and the component has
  been disposed, or the active editor's document is not the document of the edit (or
  there is no active editor), or the document's version is not the version read when the
  edit was handled, the code after \<open>await\<close> leaves the state as it is: no snippet is
  inserted. Whatever the reply, a snippet is inserted only when none of the three holds.
\<close>

theorem stale_response_discarded:
  "(disposed s \<or> map_option document (activeTextEditor s) \<noteq> Some (request_document r) \<or>
      version s (request_document r) \<noteq> request_version r \<longrightarrow>
      response_received r (Body newText) s = s) \<and>
   (inserted (response_received r rep s) \<noteq> inserted s \<longrightarrow>
      \<not> disposed s \<and> map_option document (activeTextEditor s) = Some (request_document r) \<and>
      version s (request_document r) = request_version r)"
  by (auto simp add: response_received_def Let_def split: option.splits reply.splits)

text \<open>The request carries the document and the version read when the edit was
  handled: the handler stores them in the timer, the timer's callback in the request.\<close>

lemma request_carries_edit_version:
  "handled toPath doc changes s \<Longrightarrow> triggers (last changes) \<Longrightarrow>
   timer_document (last (timers (onDidChangeTextDocument toPath doc changes s))) = doc \<and>
   timer_version (last (timers (onDidChangeTextDocument toPath doc changes s))) = version s doc"
  "\<not> disposed s \<Longrightarrow>
   request_document (last (requests (timer_callback t s))) = timer_document t \<and>
   request_version (last (requests (timer_callback t s))) = timer_version t"
  by (simp_all add: handled_triggered timer_callback_def Let_def)

text \<open>An edit at version 1, the timer elapses, the user types on (version 2), the
  reply arrives: nothing is inserted.\<close>

theorem stale_response_discarded_witness:
  "map request_version
     (requests
        (run Some (new_TagClosing (Some \<lparr>document = 0, selections = []\<rparr>) ((!) [1]) ((!) [''file:///a.tsx'']))
           [DocumentChanged 0
              [\<lparr>range_start = \<lparr>line = 0, character = 4\<rparr>, rangeLength = 0, change_text = ''/''\<rparr>],
            TimerElapsed 0, VersionChanged 0 2])) = [1] \<and>
   version
     (run Some (new_TagClosing (Some \<lparr>document = 0, selections = []\<rparr>) ((!) [1]) ((!) [''file:///a.tsx'']))
        [DocumentChanged 0
           [\<lparr>range_start = \<lparr>line = 0, character = 4\<rparr>, rangeLength = 0, change_text = ''/''\<rparr>],
         TimerElapsed 0, VersionChanged 0 2]) 0 = 2 \<and>
   inserted
     (run Some (new_TagClosing (Some \<lparr>document = 0, selections = []\<rparr>) ((!) [1]) ((!) [''file:///a.tsx'']))
        [DocumentChanged 0
           [\<lparr>range_start = \<lparr>line = 0, character = 4\<rparr>, rangeLength = 0, change_text = ''/''\<rparr>],
         TimerElapsed 0, VersionChanged 0 2, Settled 2 (Body ''div>'')]) = [] \<and>
   inserted
     (response_received
        \<lparr>request_id = 2, command = ''jsxClosingTag'', request_file = ''file:///a.tsx'',
         request_position = \<lparr>line = 0, character = 5\<rparr>, request_token = 1,
         request_document = 0, request_version = 1\<rparr>
        (Body ''div>'')
        (new_TagClosing (Some \<lparr>document = 0, selections = []\<rparr>) ((!) [1]) ((!) [''file:///a.tsx'']))) \<noteq>
     inserted
       (new_TagClosing (Some \<lparr>document = 0, selections = []\<rparr>) ((!) [1]) ((!) [''file:///a.tsx''])) \<and>
   version
     (new_TagClosing (Some \<lparr>document = 0, selections = []\<rparr>) ((!) [1]) ((!) [''file:///a.tsx''])) 0 = 1"
proof -
  let ?s = "run Some (new_TagClosing (Some \<lparr>document = 0, selections = []\<rparr>) ((!) [1]) ((!) [''file:///a.tsx'']))
        [DocumentChanged 0
           [\<lparr>range_start = \<lparr>line = 0, character = 4\<rparr>, rangeLength = 0, change_text = ''/''\<rparr>],
         TimerElapsed 0, VersionChanged 0 2]"
  let ?r = "\<lparr>request_id = 2, command = ''jsxClosingTag'', request_file = ''file:///a.tsx'',
             request_position = \<lparr>line = 0, character = 5\<rparr>, request_token = 1,
             request_document = 0, request_version = 1\<rparr>"
  have r: "requests ?s = [?r]" by (simp add: tag_closing_eval)
  have v: "version ?s 0 = 2" by (simp add: tag_closing_eval)
  have i: "inserted ?s = []" by (simp add: tag_closing_eval)
  have stale: "version (?s\<lparr>requests := []\<rparr>) (request_document ?r) \<noteq> request_version ?r"
    using v by simp
  from stale_response_discarded [where s = "?s\<lparr>requests := []\<rparr>" and r = ?r and newText = "''div>''"]
    stale
  have "response_received ?r (Body ''div>'') (?s\<lparr>requests := []\<rparr>) = ?s\<lparr>requests := []\<rparr>"
    by simp
  moreover have "run Some (new_TagClosing (Some \<lparr>document = 0, selections = []\<rparr>) ((!) [1]) ((!) [''file:///a.tsx'']))
        [DocumentChanged 0
           [\<lparr>range_start = \<lparr>line = 0, character = 4\<rparr>, rangeLength = 0, change_text = ''/''\<rparr>],
         TimerElapsed 0, VersionChanged 0 2, Settled 2 (Body ''div>'')] =
       step Some ?s (Settled 2 (Body ''div>''))"
    by (simp add: run_def)
  ultimately have discarded:
    "inserted
       (run Some (new_TagClosing (Some \<lparr>document = 0, selections = []\<rparr>) ((!) [1]) ((!) [''file:///a.tsx'']))
          [DocumentChanged 0
             [\<lparr>range_start = \<lparr>line = 0, character = 4\<rparr>, rangeLength = 0, change_text = ''/''\<rparr>],
           TimerElapsed 0, VersionChanged 0 2, Settled 2 (Body ''div>'')]) = []"
    using r i by simp
  let ?n = "new_TagClosing (Some \<lparr>document = 0, selections = []\<rparr>) ((!) [1]) ((!) [''file:///a.tsx''])"
  have ins: "inserted (response_received ?r (Body ''div>'') ?n) \<noteq> inserted ?n"
    by (simp add: tag_closing_eval)
  with stale_response_discarded [where s = ?n and r = ?r and rep = "Body ''div>''"]
  have fresh: "version ?n (request_document ?r) = request_version ?r"
    by blast
  from r v discarded ins fresh show ?thesis by simp
qed

text \<open>\<open>isEqual\<close> is equality of positions.\<close>

lemma isEqual_eq: "isEqual p q \<longleftrightarrow> p = q"
  by (cases p, cases q) (auto simp add: isEqual_def)

text \<open>
  Claim C4, as the code has it. A reply that passes the guard inserts one snippet, an
  empty placeholder followed by the returned text, into the active editor. When no
  cursor's active position equals the triggering position, it is inserted at the
  triggering position alone. When some cursor's active position equals it, it is
  inserted at the active position of every cursor of the editor, those that differ from
  the triggering position included.
\<close>

theorem snippet_inserted_at_cursors:
  "(pos \<in> active ` set (selections ed) \<longrightarrow>
      insertion_positions (getInsertionPositions ed pos) = map active (selections ed)) \<and>
   (pos \<notin> active ` set (selections ed) \<longrightarrow>
      insertion_positions (getInsertionPositions ed pos) = [pos]) \<and>
   (\<not> disposed s \<and> activeTextEditor s = Some ed \<and> document ed = request_document r \<and>
    version s (document ed) = request_version r \<longrightarrow>
      inserted (response_received r (Body newText) s) =
        inserted s @
          [\<lparr>into_document = document ed, snippet = [Placeholder [] 0, Text newText],
            at = getInsertionPositions ed (request_position r)\<rparr>])"
  by (auto simp add: getInsertionPositions_def Let_def list_ex_iff isEqual_eq
      response_received_def getTagSnippet_def)

theorem snippet_inserted_at_cursors_witness:
  "\<lparr>line = 0, character = 5\<rparr> \<in> active ` set
     [\<lparr>anchor = \<lparr>line = 3, character = 2\<rparr>, active = \<lparr>line = 3, character = 2\<rparr>\<rparr>,
      \<lparr>anchor = \<lparr>line = 0, character = 5\<rparr>, active = \<lparr>line = 0, character = 5\<rparr>\<rparr>] \<and>
   insertion_positions
     (getInsertionPositions
        \<lparr>document = 0,
         selections =
           [\<lparr>anchor = \<lparr>line = 3, character = 2\<rparr>, active = \<lparr>line = 3, character = 2\<rparr>\<rparr>,
            \<lparr>anchor = \<lparr>line = 0, character = 5\<rparr>, active = \<lparr>line = 0, character = 5\<rparr>\<rparr>]\<rparr>
        \<lparr>line = 0, character = 5\<rparr>) =
     [\<lparr>line = 3, character = 2\<rparr>, \<lparr>line = 0, character = 5\<rparr>] \<and>
   \<lparr>line = 0, character = 6\<rparr> \<notin> active ` set
     [\<lparr>anchor = \<lparr>line = 3, character = 2\<rparr>, active = \<lparr>line = 3, character = 2\<rparr>\<rparr>,
      \<lparr>anchor = \<lparr>line = 0, character = 5\<rparr>, active = \<lparr>line = 0, character = 5\<rparr>\<rparr>] \<and>
   insertion_positions
     (getInsertionPositions
        \<lparr>document = 0,
         selections =
           [\<lparr>anchor = \<lparr>line = 3, character = 2\<rparr>, active = \<lparr>line = 3, character = 2\<rparr>\<rparr>,
            \<lparr>anchor = \<lparr>line = 0, character = 5\<rparr>, active = \<lparr>line = 0, character = 5\<rparr>\<rparr>]\<rparr>
        \<lparr>line = 0, character = 6\<rparr>) =
     [\<lparr>line = 0, character = 6\<rparr>] \<and>
   inserted
     (response_received
        \<lparr>request_id = 2, command = ''jsxClosingTag'', request_file = ''file:///a.tsx'',
         request_position = \<lparr>line = 0, character = 5\<rparr>, request_token = 1,
         request_document = 0, request_version = 1\<rparr>
        (Body ''div>'')
        (new_TagClosing
           (Some \<lparr>document = 0,
                  selections =
                    [\<lparr>anchor = \<lparr>line = 3, character = 2\<rparr>, active = \<lparr>line = 3, character = 2\<rparr>\<rparr>,
                     \<lparr>anchor = \<lparr>line = 0, character = 5\<rparr>, active = \<lparr>line = 0, character = 5\<rparr>\<rparr>]\<rparr>)
           ((!) [1]) ((!) [''file:///a.tsx'']))) =
     [\<lparr>into_document = 0, snippet = [Placeholder [] 0, Text ''div>''],
       at = Positions [\<lparr>line = 3, character = 2\<rparr>, \<lparr>line = 0, character = 5\<rparr>]\<rparr>]"
proof -
  let ?ed = "\<lparr>document = 0,
         selections =
           [\<lparr>anchor = \<lparr>line = 3, character = 2\<rparr>, active = \<lparr>line = 3, character = 2\<rparr>\<rparr>,
            \<lparr>anchor = \<lparr>line = 0, character = 5\<rparr>, active = \<lparr>line = 0, character = 5\<rparr>\<rparr>]\<rparr>"
  have a: "\<lparr>line = 0, character = 5\<rparr> \<in> active ` set (selections ?ed)" by simp
  have b: "\<lparr>line = 0, character = 6\<rparr> \<notin> active ` set (selections ?ed)" by simp
  let ?n = "new_TagClosing (Some ?ed) ((!) [1]) ((!) [''file:///a.tsx''])"
  let ?r = "\<lparr>request_id = 2, command = ''jsxClosingTag'', request_file = ''file:///a.tsx'',
             request_position = \<lparr>line = 0, character = 5\<rparr>, request_token = 1,
             request_document = 0, request_version = 1\<rparr>"
  have g: "\<not> disposed ?n \<and> activeTextEditor ?n = Some ?ed \<and> document ?ed = request_document ?r \<and>
           version ?n (document ?ed) = request_version ?r"
    by (simp add: new_TagClosing_def)
  have e: "inserted ?n = []" by (simp add: new_TagClosing_def)
  note at5 = snippet_inserted_at_cursors
    [where ed = ?ed and pos = "\<lparr>line = 0, character = 5\<rparr>" and s = ?n and r = ?r
      and newText = "''div>''"]
  note at6 = snippet_inserted_at_cursors [where ed = ?ed and pos = "\<lparr>line = 0, character = 6\<rparr>"]
  from at5 a have p5: "insertion_positions (getInsertionPositions ?ed \<lparr>line = 0, character = 5\<rparr>) =
      map active (selections ?ed)"
    by blast
  from at6 b have p6: "insertion_positions (getInsertionPositions ?ed \<lparr>line = 0, character = 6\<rparr>) =
      [\<lparr>line = 0, character = 6\<rparr>]"
    by blast
  from at5 g have i: "inserted (response_received ?r (Body ''div>'') ?n) =
      inserted ?n @
        [\<lparr>into_document = document ?ed, snippet = [Placeholder [] 0, Text ''div>''],
          at = getInsertionPositions ?ed (request_position ?r)\<rparr>]"
    by blast
  have w: "getInsertionPositions ?ed \<lparr>line = 0, character = 5\<rparr> =
      Positions [\<lparr>line = 3, character = 2\<rparr>, \<lparr>line = 0, character = 5\<rparr>]"
    by (simp add: getInsertionPositions_def isEqual_def)
  from a b p5 p6 i e w show ?thesis by simp
qed

text \<open>
  The claim C4 as the spec words it has no insertion at a cursor whose active position
  differs from the triggering position. Two cursors type \<open>/\<close>, at (3, 1) and at (0, 4);
  the last change is the one at (0, 4), so the triggering position is (0, 5); the
  cursors are then at (3, 2) and (0, 5). The reply passes the guard and the snippet is
  inserted at both, also at (3, 2).
\<close>

theorem snippet_inserted_at_other_cursor:
  "map request_position
     (requests
        (run Some
           (new_TagClosing
              (Some \<lparr>document = 0,
                     selections =
                       [\<lparr>anchor = \<lparr>line = 3, character = 2\<rparr>, active = \<lparr>line = 3, character = 2\<rparr>\<rparr>,
                        \<lparr>anchor = \<lparr>line = 0, character = 5\<rparr>, active = \<lparr>line = 0, character = 5\<rparr>\<rparr>]\<rparr>)
              ((!) [1]) ((!) [''file:///a.tsx'']))
           [DocumentChanged 0
              [\<lparr>range_start = \<lparr>line = 3, character = 1\<rparr>, rangeLength = 0, change_text = ''/''\<rparr>,
               \<lparr>range_start = \<lparr>line = 0, character = 4\<rparr>, rangeLength = 0, change_text = ''/''\<rparr>],
            TimerElapsed 0])) = [\<lparr>line = 0, character = 5\<rparr>] \<and>
   map at
     (inserted
        (run Some
           (new_TagClosing
              (Some \<lparr>document = 0,
                     selections =
                       [\<lparr>anchor = \<lparr>line = 3, character = 2\<rparr>, active = \<lparr>line = 3, character = 2\<rparr>\<rparr>,
                        \<lparr>anchor = \<lparr>line = 0, character = 5\<rparr>, active = \<lparr>line = 0, character = 5\<rparr>\<rparr>]\<rparr>)
              ((!) [1]) ((!) [''file:///a.tsx'']))
           [DocumentChanged 0
              [\<lparr>range_start = \<lparr>line = 3, character = 1\<rparr>, rangeLength = 0, change_text = ''/''\<rparr>,
               \<lparr>range_start = \<lparr>line = 0, character = 4\<rparr>, rangeLength = 0, change_text = ''/''\<rparr>],
            TimerElapsed 0, Settled 2 (Body ''div>'')])) =
     [Positions [\<lparr>line = 3, character = 2\<rparr>, \<lparr>line = 0, character = 5\<rparr>]] \<and>
   \<lparr>line = 3, character = 2\<rparr> \<in>
     set (insertion_positions (Positions [\<lparr>line = 3, character = 2\<rparr>, \<lparr>line = 0, character = 5\<rparr>])) \<and>
   \<lparr>line = 3, character = 2\<rparr> \<noteq> \<lparr>line = 0, character = 5\<rparr>"
  by (simp add: tag_closing_eval)

section \<open>Properties of the breadcrumbs file picker\<close>

text \<open>
  Claim C8. When the first element of the selection is a file stat that is not a
  directory, the handler fires one pick event, with the resource of that element; when
  it is a directory, it fires none.
\<close>

theorem file_pick_emits_resource:
  "(\<not> isDirectory stat \<longrightarrow> onDidChangeSelection (stat # rest) = [resource stat]) \<and>
   (isDirectory stat \<longrightarrow> onDidChangeSelection (stat # rest) = [])"
  by (simp add: onDidChangeSelection_def)

theorem file_pick_emits_resource_witness:
  "\<not> isDirectory \<lparr>name = ''a.ts'', resource = ''file:///src/a.ts'', isDirectory = False\<rparr> \<and>
   onDidChangeSelection
     [\<lparr>name = ''a.ts'', resource = ''file:///src/a.ts'', isDirectory = False\<rparr>,
      \<lparr>name = ''lib'', resource = ''file:///src/lib'', isDirectory = True\<rparr>] =
     [''file:///src/a.ts''] \<and>
   isDirectory \<lparr>name = ''lib'', resource = ''file:///src/lib'', isDirectory = True\<rparr> \<and>
   onDidChangeSelection
     [\<lparr>name = ''lib'', resource = ''file:///src/lib'', isDirectory = True\<rparr>] = []"
  using
    file_pick_emits_resource
      [where stat = "\<lparr>name = ''a.ts'', resource = ''file:///src/a.ts'', isDirectory = False\<rparr>"
        and rest = "[\<lparr>name = ''lib'', resource = ''file:///src/lib'', isDirectory = True\<rparr>]"]
    file_pick_emits_resource
      [where stat = "\<lparr>name = ''lib'', resource = ''file:///src/lib'', isDirectory = True\<rparr>"
        and rest = "[]"]
  by simp

text \<open>
  Claim C9. The comparator puts a directory before a file that is not one (a negative
  result when the first is the directory, a positive one when the second is), and for
  two elements of the same kind it returns what \<open>compareFileNames\<close> returns for their
  names.
\<close>

theorem directories_before_files:
  "(isDirectory a \<and> \<not> isDirectory b \<longrightarrow> compare compareFileNames a b < 0) \<and>
   (\<not> isDirectory a \<and> isDirectory b \<longrightarrow> compare compareFileNames a b > 0) \<and>
   (isDirectory a = isDirectory b \<longrightarrow>
      compare compareFileNames a b = compareFileNames (name a) (name b))"
  by (auto simp add: compare_def)

theorem directories_before_files_witness:
  "compare (\<lambda>x y. int (length x) - int (length y))
     \<lparr>name = ''zoo'', resource = ''file:///zoo'', isDirectory = True\<rparr>
     \<lparr>name = ''a.ts'', resource = ''file:///a.ts'', isDirectory = False\<rparr> < 0 \<and>
   compare (\<lambda>x y. int (length x) - int (length y))
     \<lparr>name = ''a.ts'', resource = ''file:///a.ts'', isDirectory = False\<rparr>
     \<lparr>name = ''zoo'', resource = ''file:///zoo'', isDirectory = True\<rparr> > 0 \<and>
   compare (\<lambda>x y. int (length x) - int (length y))
     \<lparr>name = ''a.ts'', resource = ''file:///a.ts'', isDirectory = False\<rparr>
     \<lparr>name = ''index.ts'', resource = ''file:///index.ts'', isDirectory = False\<rparr> = - 4"
  using
    directories_before_files
      [where a = "\<lparr>name = ''zoo'', resource = ''file:///zoo'', isDirectory = True\<rparr>"
        and b = "\<lparr>name = ''a.ts'', resource = ''file:///a.ts'', isDirectory = False\<rparr>"
        and compareFileNames = "\<lambda>x y. int (length x) - int (length y)"]
    directories_before_files
      [where b = "\<lparr>name = ''zoo'', resource = ''file:///zoo'', isDirectory = True\<rparr>"
        and a = "\<lparr>name = ''a.ts'', resource = ''file:///a.ts'', isDirectory = False\<rparr>"
        and compareFileNames = "\<lambda>x y. int (length x) - int (length y)"]
    directories_before_files
      [where a = "\<lparr>name = ''a.ts'', resource = ''file:///a.ts'', isDirectory = False\<rparr>"
        and b = "\<lparr>name = ''index.ts'', resource = ''file:///index.ts'', isDirectory = False\<rparr>"
        and compareFileNames = "\<lambda>x y. int (length x) - int (length y)"]
  by simp

end
